theory Spec2Isabelle
  imports Complex_Main
begin

section \<open>Numbers and strings of the source\<close>

text \<open>
  The source is JavaScript. Its numbers are IEEE doubles; here a number is a \<^typ>\<open>real\<close>:
  the finite doubles are reals, comparisons are exact, and arithmetic is taken without
  rounding (\<open>0.001\<close> is the real \<open>1/1000\<close>). NaN and the infinities are outside the model.
  Array lengths, indices and the canvas width are natural numbers.
\<close>

subsection \<open>Decimal digits\<close>

definition digit_char :: "nat \<Rightarrow> char" where
  "digit_char d = ''0123456789'' ! d"

fun digits :: "nat \<Rightarrow> string" where
  "digits n = (if n < 10 then [digit_char n] else digits (n div 10) @ [digit_char (n mod 10)])"

declare digits.simps [simp del]

definition is_digit_char :: "char \<Rightarrow> bool" where
  "is_digit_char c = (48 \<le> (of_char c :: nat) \<and> (of_char c :: nat) \<le> 57)"

definition digit_val :: "char \<Rightarrow> nat" where
  "digit_val c = of_char c - 48"

definition nat_of_digits :: "string \<Rightarrow> nat" where
  "nat_of_digits ds = foldl (\<lambda>a c. 10 * a + digit_val c) 0 ds"

section \<open>The export sweep (exporter.js, \<open>Exporter.export\<close>)\<close>

text \<open>
  A pause descriptor as \<open>togglePause\<close> pushes it and \<open>export\<close> reads it
  (\<open>interface PauseRange\<close> of the TypeScript port).
\<close>

record PauseRange =
  startVideoTime :: real
  pauseDuration :: real
  frameDataURL :: string

text \<open>
  The loop of \<open>export\<close> asks the engine for three kinds of clip. Each carries the numbers
  the loop passes to \<open>fmtTime\<close> and the value of \<open>segIndex\<close> that names its output
  \<open>seg_k.mp4\<close>:
  \<^item> \<open>CopySegment segStart segEnd k\<close>: \<open>-ss segStart -to segEnd -c copy\<close>;
  \<^item> \<open>FreezeClip frameDataURL pauseDuration k\<close>: the still \<open>still_k.png\<close> looped for
    \<open>-t pauseDuration\<close>;
  \<^item> \<open>CopyTail last k\<close>: \<open>-ss last -c copy\<close>, with no \<open>-to\<close>.
\<close>

datatype clip =
    CopySegment real real nat
  | FreezeClip string real nat
  | CopyTail real nat

text \<open>
  \<open>for (const p of pauses) { ... }\<close> followed by the tail segment, with the loop variables
  \<open>last\<close> (here \<open>last'\<close>) and \<open>segIndex\<close> as arguments. \<open>segIndex++\<close> is taken once for a real segment
  and once for the freeze clip; \<open>still_k.png\<close> reads \<open>segIndex\<close> before the second
  increment, so the still and its clip share \<open>k\<close>.
\<close>

fun export_loop :: "real \<Rightarrow> nat \<Rightarrow> PauseRange list \<Rightarrow> clip list" where
  "export_loop last' segIndex [] = [CopyTail last' segIndex]"
| "export_loop last' segIndex (p # ps) =
     (let segStart = last'; segEnd = startVideoTime p in
      if segEnd > segStart + 1/1000
      then CopySegment segStart segEnd segIndex
           # FreezeClip (frameDataURL p) (pauseDuration p) (segIndex + 1)
           # export_loop segEnd (segIndex + 2) ps
      else FreezeClip (frameDataURL p) (pauseDuration p) segIndex
           # export_loop segEnd (segIndex + 1) ps)"

text \<open>\<open>let last = 0; let segIndex = 0;\<close>\<close>

definition export_clips :: "PauseRange list \<Rightarrow> clip list" where
  "export_clips pauses = export_loop 0 0 pauses"

subsection \<open>The segment plan\<close>

text \<open>
  The plan of the specification, read off the clips. The tail is copied from \<open>last\<close> to
  the end of the staged video, whose length is \<open>totalDuration\<close>.
\<close>

datatype SegmentPlanEntry =
    RealSegment real real
  | FreezeSegment string real

fun entry_of :: "real \<Rightarrow> clip \<Rightarrow> SegmentPlanEntry" where
  "entry_of totalDuration (CopySegment a b k) = RealSegment a b"
| "entry_of totalDuration (FreezeClip f d k) = FreezeSegment f d"
| "entry_of totalDuration (CopyTail a k) = RealSegment a totalDuration"

definition plan :: "real \<Rightarrow> PauseRange list \<Rightarrow> SegmentPlanEntry list" where
  "plan totalDuration pauses = map (entry_of totalDuration) (export_clips pauses)"


fun freezes :: "SegmentPlanEntry list \<Rightarrow> (string \<times> real) list" where
  "freezes [] = []"
| "freezes (RealSegment a b # es) = freezes es"
| "freezes (FreezeSegment f d # es) = (f, d) # freezes es"






subsection \<open>Times as the engine receives them: \<open>fmtTime\<close>\<close>

text \<open>
  \<open>const fmtTime = (t) => t.toFixed(3)\<close>. \<open>Number.prototype.toFixed\<close> with three
  fraction digits, step by step as ECMAScript gives it: the sign is split off; a magnitude
  of \<open>10\<^sup>2\<^sup>1\<close> or more is handed to \<open>Number::toString\<close>, which is not part of this
  repository and is the parameter \<open>toString\<close>; otherwise \<open>n\<close> is the integer nearest to
  \<open>x * 1000\<close> (the larger one on a tie), \<open>m\<close> its decimal digits padded with zeros on
  the left to four places at least, and the result is \<open>m\<close> with a point before its last
  three digits. The function reads the exact value of the double, so it is a function of
  the real.
\<close>

definition toFixed3 :: "(real \<Rightarrow> string) \<Rightarrow> real \<Rightarrow> string" where
  "toFixed3 toString t =
     (let s = (if t < 0 then ''-'' else []);
          x = (if t < 0 then - t else t)
      in if x \<ge> 10 ^ 21 then s @ toString x
         else
           let n = nat \<lfloor>x * 1000 + 1/2\<rfloor>;
               m = (if n = 0 then ''0'' else digits n);
               k = length m;
               m' = (if k \<le> 3 then replicate (3 + 1 - k) (CHR ''0'') @ m else m);
               k' = (if k \<le> 3 then 3 + 1 else k)
           in s @ take (k' - 3) m' @ ''.'' @ drop (k' - 3) m')"

definition fmtTime :: "(real \<Rightarrow> string) \<Rightarrow> real \<Rightarrow> string" where
  "fmtTime toString t = toFixed3 toString t"

text \<open>
  A string reads as a time quantized to the millisecond: decimal digits, a point, and
  exactly three decimal digits, after an optional minus sign; \<open>ms_of\<close> is its magnitude in
  milliseconds.
\<close>

definition unsigned :: "string \<Rightarrow> string" where
  "unsigned str = (case str of [] \<Rightarrow> [] | c # r \<Rightarrow> if c = CHR ''-'' then r else c # r)"

definition is_fixed3 :: "string \<Rightarrow> bool" where
  "is_fixed3 str =
     (let u = unsigned str; k = length u
      in 5 \<le> k \<and> u ! (k - 4) = CHR ''.''
         \<and> list_all is_digit_char (take (k - 4) u)
         \<and> list_all is_digit_char (drop (k - 3) u))"

definition ms_of :: "string \<Rightarrow> nat" where
  "ms_of str =
     (let u = unsigned str; k = length u
      in nat_of_digits (take (k - 4) u) * 1000 + nat_of_digits (drop (k - 3) u))"

subsection \<open>The engine calls of \<open>export\<close>\<close>

definition seg_name :: "nat \<Rightarrow> string" where
  "seg_name k = ''seg_'' @ digits k @ ''.mp4''"

definition still_name :: "nat \<Rightarrow> string" where
  "still_name k = ''still_'' @ digits k @ ''.png''"

text \<open>The argument list of \<open>this.ffmpeg.run(...)\<close> for each clip.\<close>

fun clip_args :: "(real \<Rightarrow> string) \<Rightarrow> clip \<Rightarrow> string list" where
  "clip_args ts (CopySegment segStart segEnd k) =
     [''-i'', ''input.mp4'', ''-ss'', fmtTime ts segStart, ''-to'', fmtTime ts segEnd,
      ''-c'', ''copy'', seg_name k]"
| "clip_args ts (FreezeClip url d k) =
     [''-loop'', ''1'', ''-i'', still_name k, ''-t'', fmtTime ts d, ''-vf'',
      ''format=yuv420p,scale=trunc(iw/2)*2:trunc(ih/2)*2'', ''-r'', ''30'',
      ''-pix_fmt'', ''yuv420p'', seg_name k]"
| "clip_args ts (CopyTail last' k) =
     [''-i'', ''input.mp4'', ''-ss'', fmtTime ts last', ''-c'', ''copy'', seg_name k]"

text \<open>The numbers a clip hands to \<open>fmtTime\<close>, in the order of its argument list.\<close>

fun clip_times :: "clip \<Rightarrow> real list" where
  "clip_times (CopySegment segStart segEnd k) = [segStart, segEnd]"
| "clip_times (FreezeClip url d k) = [d]"
| "clip_times (CopyTail last' k) = [last']"

text \<open>The values that follow a time option (\<open>-ss\<close>, \<open>-to\<close>, \<open>-t\<close>) in an argument list.\<close>

fun time_args :: "string list \<Rightarrow> string list" where
  "time_args (flag # v # rest) =
     (if flag = ''-ss'' \<or> flag = ''-to'' \<or> flag = ''-t'' then v # time_args rest
      else time_args (v # rest))"
| "time_args rest = []"

fun clip_out :: "clip \<Rightarrow> nat" where
  "clip_out (CopySegment segStart segEnd k) = k"
| "clip_out (FreezeClip url d k) = k"
| "clip_out (CopyTail last' k) = k"

text \<open>
  What is written to or read from the engine's file system, and the calls made on the
  engine. \<open>FrameData url\<close> is the body fetched from a pause's \<open>frameDataURL\<close>.
\<close>

datatype blob =
    VideoBlob
  | NarrationBlob
  | TrimmedWav "real list"
  | FrameData string
  | Text string
  | OutputMp4

datatype engine_call =
    CreateFFmpeg
  | Load
  | FSWriteFile string blob
  | Run "string list"
  | FSReadFile string

fun clip_calls :: "(real \<Rightarrow> string) \<Rightarrow> clip \<Rightarrow> engine_call list" where
  "clip_calls ts (FreezeClip url d k) =
     [FSWriteFile (still_name k) (FrameData url), Run (clip_args ts (FreezeClip url d k))]"
| "clip_calls ts c = [Run (clip_args ts c)]"

text \<open>\<open>concatList.join('\n')\<close> of the lines \<open>file 'seg_k.mp4'\<close>.\<close>

fun join_lines :: "string list \<Rightarrow> string" where
  "join_lines [] = []"
| "join_lines [l] = l"
| "join_lines (l # ls) = l @ [CHR 0x0A] @ join_lines ls"

definition concatTxt :: "clip list \<Rightarrow> string" where
  "concatTxt cs =
     join_lines (map (\<lambda>c. ''file '' @ [CHR 0x27] @ seg_name (clip_out c) @ [CHR 0x27]) cs)"

definition export_calls ::
  "(real \<Rightarrow> string) \<Rightarrow> blob \<Rightarrow> blob \<Rightarrow> PauseRange list \<Rightarrow> bool \<Rightarrow> engine_call list" where
  "export_calls ts videoBlob audioBlob pauses normalize' =
     [FSWriteFile ''input.mp4'' videoBlob, FSWriteFile ''voice.m4a'' audioBlob]
     @ concat (map (clip_calls ts) (export_clips pauses))
     @ [FSWriteFile ''list.txt'' (Text (concatTxt (export_clips pauses))),
        Run [''-f'', ''concat'', ''-safe'', ''0'', ''-i'', ''list.txt'', ''-c'', ''copy'',
             ''video_full.mp4''],
        Run ([''-i'', ''voice.m4a'']
             @ (if normalize' then [''-af'', ''loudnorm=I=-16:TP=-1.5:LRA=11''] else [])
             @ [''-c:a'', ''aac'', ''-b:a'', ''192k'', ''voice.aac'']),
        Run [''-i'', ''video_full.mp4'', ''-i'', ''voice.aac'', ''-map'', ''0:v:0'', ''-map'',
             ''1:a:0'', ''-c:v'', ''copy'', ''-shortest'', ''output.mp4''],
        FSReadFile ''output.mp4'']"

text \<open>
  The time values among the arguments of a call, and the numbers that the loop of
  \<open>export\<close> formats: each real segment's start and end, each freeze clip's duration,
  and the tail's start.
\<close>

fun call_time_args :: "engine_call \<Rightarrow> string list" where
  "call_time_args (Run args) = time_args args"
| "call_time_args c = []"

definition export_times :: "PauseRange list \<Rightarrow> real list" where
  "export_times pauses = concat (map clip_times (export_clips pauses))"

text \<open>
  The calls are awaited one at a time; the first that fails throws and ends the export.
  \<open>perform ok calls\<close> is the list of calls made and whether all of them succeeded.
\<close>

fun perform :: "(engine_call \<Rightarrow> bool) \<Rightarrow> engine_call list \<Rightarrow> engine_call list \<times> bool" where
  "perform ok [] = ([], True)"
| "perform ok (c # cs) =
     (if ok c then (c # fst (perform ok cs), snd (perform ok cs)) else ([c], False))"

datatype export_error =
    NoNarrationRecorded
  | EngineUnavailable
  | EngineInvocationFailed engine_call
  | VideoFetchFailed
  | TrimRenderFailed

text \<open>
  What lies outside the program: whether \<open>window.FFmpeg.createFFmpeg\<close> shows up within
  the ten polls of \<open>ensureFFmpeg\<close>, which engine calls succeed, whether the page's video
  can be fetched, whether the offline rendering of the trimmed samples succeeds (given
  the length \<open>end - start\<close> asked of \<open>OfflineAudioContext\<close> and the samples), and
  \<open>Number::toString\<close>.
\<close>

record environment =
  library_present :: bool
  call_ok :: "engine_call \<Rightarrow> bool"
  video_fetch_ok :: bool
  render_ok :: "int \<Rightarrow> real list \<Rightarrow> bool"
  number_toString :: "real \<Rightarrow> string"

text \<open>
  \<open>Exporter.export\<close> on a fresh \<open>Exporter\<close> (\<open>this.ffmpeg\<close> is \<open>null\<close>): \<open>ensureFFmpeg\<close>
  throws when the library is absent, else creates and loads the engine; then the calls of
  \<open>export_calls\<close>. The result is the calls made on the engine and the error or the output.
\<close>

definition Exporter_export ::
  "environment \<Rightarrow> blob \<Rightarrow> blob \<Rightarrow> PauseRange list \<Rightarrow> bool
     \<Rightarrow> engine_call list \<times> (export_error + blob)" where
  "Exporter_export env videoBlob audioBlob pauses normalize' =
     (if \<not> library_present env then ([], Inl EngineUnavailable)
      else
        let r = perform (call_ok env)
                  ([CreateFFmpeg, Load]
                   @ export_calls (number_toString env) videoBlob audioBlob pauses normalize')
        in if snd r then (fst r, Inr OutputMp4)
           else (fst r, Inl (EngineInvocationFailed (last (fst r)))))"

section \<open>The progress logger (exporter.js, \<open>ensureFFmpeg\<close>)\<close>












section \<open>The application state (main.js)\<close>

text \<open>
  \<open>trimRange\<close> is \<open>{ start, end }\<close>, fractions of the sample count of the narration
  buffer; a history item is \<open>{ type: 'trim', from, to }\<close>. The two stacks are arrays used
  with \<open>push\<close> and \<open>pop\<close>: here lists whose head is the top.
\<close>

record TrimRange =
  range_start :: real
  range_end :: real

record HistoryItem =
  item_from :: TrimRange
  item_to :: TrimRange

text \<open>
  The module-level variables of main.js, the two \<open>window._vpv_*\<close> globals, and the two
  things read from the page: \<open>videoEl.paused\<close> and the check box \<open>normalizeChk\<close>.
\<close>

record app =
  audioBlob :: "blob option"
  audioPCM :: "real list option"
  pauses :: "PauseRange list"
  isRecording :: bool
  undoStack :: "HistoryItem list"
  redoStack :: "HistoryItem list"
  trimRange :: TrimRange
  video_paused :: bool
  vpv_lastPause :: "(real \<times> string) option"
  vpv_pauseStartAt :: "real option"
  normalizeChk :: bool

definition initial_app :: app where
  "initial_app =
     \<lparr>audioBlob = None, audioPCM = None, pauses = [], isRecording = False, undoStack = [],
      redoStack = [], trimRange = \<lparr>range_start = 0, range_end = 1\<rparr>, video_paused = True,
      vpv_lastPause = None, vpv_pauseStartAt = None, normalizeChk = False\<rparr>"

subsection \<open>Pause and resume\<close>

text \<open>
  \<open>togglePause\<close>. \<open>now\<close> is \<open>performance.now()\<close> in milliseconds, \<open>currentTime\<close> is
  \<open>videoEl.currentTime\<close> and \<open>frame\<close> is the data URL of the current frame.
  \<open>prev ? (now - prev) / 1000 : 0.01\<close>: \<open>prev\<close> is falsy when it is undefined or \<open>0\<close>.
\<close>

definition togglePause :: "real \<Rightarrow> real \<Rightarrow> string \<Rightarrow> app \<Rightarrow> app" where
  "togglePause now currentTime frame s =
     (if \<not> isRecording s then s
      else if \<not> video_paused s
      then s\<lparr>vpv_lastPause := Some (currentTime, frame), video_paused := True\<rparr>
      else
        (case vpv_lastPause s of
           None \<Rightarrow> s
         | Some lp \<Rightarrow>
             let dur = (case vpv_pauseStartAt s of
                          None \<Rightarrow> 1/100
                        | Some prev \<Rightarrow> if prev \<noteq> 0 then (now - prev) / 1000 else 1/100)
             in s\<lparr>pauses := pauses s @
                    [\<lparr>startVideoTime = fst lp, pauseDuration = max (1/100) dur,
                      frameDataURL = snd lp\<rparr>]\<rparr>)
        \<lparr>video_paused := False\<rparr>)"

text \<open>The listeners of the video's \<open>pause\<close> and \<open>play\<close> events.\<close>

definition on_video_pause :: "real \<Rightarrow> app \<Rightarrow> app" where
  "on_video_pause now s = (if isRecording s then s\<lparr>vpv_pauseStartAt := Some now\<rparr> else s)"

definition on_video_play :: "app \<Rightarrow> app" where
  "on_video_play s = s\<lparr>vpv_pauseStartAt := Some 0\<rparr>"

text \<open>
  \<open>startRecording\<close> (\<open>granted\<close>: \<open>getUserMedia\<close> resolves), \<open>stopRecording\<close>, and the
  recorder's \<open>onstop\<close> handler, which stores the narration and, when decoding succeeds,
  its samples.
\<close>

definition startRecording :: "bool \<Rightarrow> app \<Rightarrow> app" where
  "startRecording granted s =
     (if isRecording s \<or> \<not> granted then s else s\<lparr>isRecording := True, video_paused := False\<rparr>)"

definition stopRecording :: "app \<Rightarrow> app" where
  "stopRecording s = (if \<not> isRecording s then s else s\<lparr>isRecording := False\<rparr>)"

definition recorder_onstop :: "real list option \<Rightarrow> app \<Rightarrow> app" where
  "recorder_onstop decoded s =
     (case decoded of
        None \<Rightarrow> s\<lparr>audioBlob := Some NarrationBlob\<rparr>
      | Some ch0 \<Rightarrow> s\<lparr>audioBlob := Some NarrationBlob, audioPCM := Some ch0\<rparr>)"

subsection \<open>Trim silence, undo and redo\<close>

text \<open>
  The two loops of the trim handler:
  \<open>while (i < audioPCM.length && Math.abs(audioPCM[i]) < threshold) i++\<close> and
  \<open>while (j > 0 && Math.abs(audioPCM[j]) < threshold) j--\<close>, with \<open>threshold = 0.02\<close>.
  \<open>j\<close> starts at \<open>length - 1\<close>, which is \<open>-1\<close> for an empty buffer, so it is an integer;
  the guard \<open>j > 0\<close> keeps the read in range.
\<close>

function scan_lead :: "real list \<Rightarrow> nat \<Rightarrow> nat" where
  "scan_lead pcm i =
     (if i < length pcm \<and> \<bar>pcm ! i\<bar> < 2/100 then scan_lead pcm (i + 1) else i)"
  by pat_completeness auto
termination
  by (relation "measure (\<lambda>(pcm, i). length pcm - i)") auto

declare scan_lead.simps [simp del]

function scan_trail :: "real list \<Rightarrow> int \<Rightarrow> int" where
  "scan_trail pcm j =
     (if j > 0 \<and> \<bar>pcm ! nat j\<bar> < 2/100 then scan_trail pcm (j - 1) else j)"
  by pat_completeness auto
termination
  by (relation "measure (\<lambda>(pcm, j). nat j)") auto

declare scan_trail.simps [simp del]

text \<open>
  \<open>{ start: i / audioPCM.length, end: (j + 1) / audioPCM.length }\<close>. A decoded audio
  buffer has at least one sample frame, so the length is not \<open>0\<close> (for an empty array
  JavaScript would give NaN, HOL gives \<open>0\<close>).
\<close>

definition silence_range :: "real list \<Rightarrow> TrimRange" where
  "silence_range pcm =
     (let i = scan_lead pcm 0; j = scan_trail pcm (int (length pcm) - 1)
      in \<lparr>range_start = real i / real (length pcm),
          range_end = (real_of_int j + 1) / real (length pcm)\<rparr>)"

text \<open>
  The state change of the trim handler for a new range: \<open>prev = { ...trimRange }\<close>, the
  new \<open>trimRange\<close>, \<open>undoStack.push({ from: prev, to: trimRange })\<close>,
  \<open>redoStack.length = 0\<close>.
\<close>

definition applyTrim :: "TrimRange \<Rightarrow> app \<Rightarrow> app" where
  "applyTrim newRange s =
     s\<lparr>trimRange := newRange,
       undoStack := \<lparr>item_from = trimRange s, item_to = newRange\<rparr> # undoStack s,
       redoStack := []\<rparr>"

definition trimSilence_click :: "app \<Rightarrow> app" where
  "trimSilence_click s =
     (case audioPCM s of None \<Rightarrow> s | Some pcm \<Rightarrow> applyTrim (silence_range pcm) s)"

definition undo_click :: "app \<Rightarrow> app" where
  "undo_click s =
     (case undoStack s of
        [] \<Rightarrow> s
      | item # rest \<Rightarrow>
          s\<lparr>undoStack := rest, redoStack := item # redoStack s, trimRange := item_from item\<rparr>)"

definition redo_click :: "app \<Rightarrow> app" where
  "redo_click s =
     (case redoStack s of
        [] \<Rightarrow> s
      | item # rest \<Rightarrow>
          s\<lparr>redoStack := rest, undoStack := item # undoStack s, trimRange := item_to item\<rparr>)"

text \<open>Sequences of edits of the trim range.\<close>

datatype edit = ApplyTrim TrimRange | Undo | Redo

fun edit_step :: "edit \<Rightarrow> app \<Rightarrow> app" where
  "edit_step (ApplyTrim r) s = applyTrim r s"
| "edit_step Undo s = undo_click s"
| "edit_step Redo s = redo_click s"

definition run_edits :: "edit list \<Rightarrow> app \<Rightarrow> app" where
  "run_edits es s = fold edit_step es s"

text \<open>
  The linear history of the specification: the ranges of the \<open>applyTrim\<close> calls that are
  still alive, in order, and how many of them are applied. \<open>replay\<close> applies a prefix of
  them to the first range; each \<open>applyTrim\<close> replaces the current range.
\<close>

type_synonym linear_history = "TrimRange list \<times> nat"

fun lin_step :: "edit \<Rightarrow> linear_history \<Rightarrow> linear_history" where
  "lin_step (ApplyTrim r) (h, k) = (take k h @ [r], k + 1)"
| "lin_step Undo (h, k) = (h, if 0 < k then k - 1 else k)"
| "lin_step Redo (h, k) = (h, if k < length h then k + 1 else k)"

definition replay :: "TrimRange \<Rightarrow> TrimRange list \<Rightarrow> TrimRange" where
  "replay r0 trims = fold (\<lambda>r cur. r) trims r0"

definition lin_current :: "TrimRange \<Rightarrow> linear_history \<Rightarrow> TrimRange" where
  "lin_current r0 hk = replay r0 (take (snd hk) (fst hk))"

definition lin_run :: "edit list \<Rightarrow> linear_history" where
  "lin_run es = fold lin_step es ([], 0)"

text \<open>
  The history that the two stacks hold: the items of the undo stack from the bottom up,
  then those of the redo stack from the top down. In a chain each item starts from the
  range the one before it led to.
\<close>

fun chain :: "TrimRange \<Rightarrow> HistoryItem list \<Rightarrow> bool" where
  "chain a [] = True"
| "chain a (it # its) = (item_from it = a \<and> chain (item_to it) its)"

definition history_of :: "app \<Rightarrow> linear_history" where
  "history_of s =
     (map item_to (rev (undoStack s)) @ map item_to (redoStack s), length (undoStack s))"

definition history_inv :: "TrimRange \<Rightarrow> app \<Rightarrow> bool" where
  "history_inv r0 s =
     (chain r0 (rev (undoStack s) @ redoStack s)
      \<and> trimRange s = last (r0 # map item_to (rev (undoStack s))))"

definition valid_range :: "TrimRange \<Rightarrow> bool" where
  "valid_range r = (0 \<le> range_start r \<and> range_start r \<le> range_end r \<and> range_end r \<le> 1)"

subsection \<open>All events\<close>

datatype event =
    StartRecording bool
  | StopRecording
  | RecorderStopped "real list option"
  | TogglePause real real string
  | VideoPauseEvent real
  | VideoPlayEvent
  | VideoSetPaused bool
  | TrimSilenceClick
  | UndoClick
  | RedoClick

text \<open>
  \<open>VideoSetPaused\<close> is a change of \<open>videoEl.paused\<close> that does not come from
  \<open>togglePause\<close>: the end of the video, or \<open>loadVideoFile\<close>.
\<close>

fun step :: "event \<Rightarrow> app \<Rightarrow> app" where
  "step (StartRecording granted) s = startRecording granted s"
| "step StopRecording s = stopRecording s"
| "step (RecorderStopped decoded) s = recorder_onstop decoded s"
| "step (TogglePause now currentTime frame) s = togglePause now currentTime frame s"
| "step (VideoPauseEvent now) s = on_video_pause now s"
| "step VideoPlayEvent s = on_video_play s"
| "step (VideoSetPaused b) s = s\<lparr>video_paused := b\<rparr>"
| "step TrimSilenceClick s = trimSilence_click s"
| "step UndoClick s = undo_click s"
| "step RedoClick s = redo_click s"

definition run :: "event list \<Rightarrow> app \<Rightarrow> app" where
  "run evs s = fold step evs s"

text \<open>
  A buffer is audible when some sample reaches the threshold of the trim handler. The
  invariant of the trim editor: the current range and every range on the two stacks are
  valid, and the narration buffer, if there is one, is audible.
\<close>

definition audible :: "real list \<Rightarrow> bool" where
  "audible pcm = (\<exists>v\<in>set pcm. \<not> \<bar>v\<bar> < 2/100)"

definition trim_inv :: "app \<Rightarrow> bool" where
  "trim_inv s =
     (valid_range (trimRange s)
      \<and> list_all (\<lambda>item. valid_range (item_from item) \<and> valid_range (item_to item))
            (undoStack s @ redoStack s)
      \<and> (case audioPCM s of None \<Rightarrow> True | Some pcm \<Rightarrow> audible pcm))"

fun audible_event :: "event \<Rightarrow> bool" where
  "audible_event (RecorderStopped (Some pcm)) = audible pcm"
| "audible_event e = True"

subsection \<open>\<open>doExport\<close>\<close>

text \<open>
  \<open>TypedArray.prototype.slice(start, end)\<close>: a negative index counts from the end, and
  both are clamped to the array.
\<close>

definition js_slice :: "int \<Rightarrow> int \<Rightarrow> 'a list \<Rightarrow> 'a list" where
  "js_slice b e xs =
     (let n = int (length xs);
          k = (if b < 0 then max (n + b) 0 else min b n);
          f = (if e < 0 then max (n + e) 0 else min e n)
      in take (nat (f - k)) (drop (nat k) xs))"

datatype export_outcome = Alert export_error | Downloaded blob

text \<open>
  \<open>doExport\<close>: the calls made on the engine, and what the user sees. Without a recorded
  narration it alerts and returns before an \<open>Exporter\<close> exists. Otherwise the trimmed
  samples are rendered (when there are decoded samples), the video is fetched, and
  \<open>Exporter.export\<close> runs; every exception is caught and alerted.
\<close>

definition doExport :: "environment \<Rightarrow> app \<Rightarrow> engine_call list \<times> export_outcome" where
  "doExport env s =
     (case audioBlob s of
        None \<Rightarrow> ([], Alert NoNarrationRecorded)
      | Some recorded \<Rightarrow>
          (case (case audioPCM s of
                   None \<Rightarrow> Inr recorded
                 | Some pcm \<Rightarrow>
                     let start = \<lfloor>range_start (trimRange s) * real (length pcm)\<rfloor>;
                         end' = \<lfloor>range_end (trimRange s) * real (length pcm)\<rfloor>;
                         samples = js_slice start end' pcm
                     in if render_ok env (end' - start) samples then Inr (TrimmedWav samples)
                        else Inl TrimRenderFailed) of
             Inl e \<Rightarrow> ([], Alert e)
           | Inr trimmed \<Rightarrow>
               if \<not> video_fetch_ok env then ([], Alert VideoFetchFailed)
               else
                 (case Exporter_export env VideoBlob trimmed (pauses s) (normalizeChk s) of
                    (calls, Inl e) \<Rightarrow> (calls, Alert e)
                  | (calls, Inr out) \<Rightarrow> (calls, Downloaded out))))"

section \<open>The waveform (waveform.js, \<open>Waveform.drawFromPCM\<close>)\<close>

text \<open>
  The inner loop for one column:
  \<open>for (let i = 0; i < step && start + i < float32.length; i++)\<close>, which lowers \<open>min\<close>
  and raises \<open>max\<close>; the pair \<open>mm\<close> is \<open>(min, max)\<close>.
\<close>

function scan_window :: "real list \<Rightarrow> nat \<Rightarrow> nat \<Rightarrow> nat \<Rightarrow> real \<times> real \<Rightarrow> real \<times> real" where
  "scan_window float32 start step' i mm =
     (if i < step' \<and> start + i < length float32
      then let v = float32 ! (start + i);
               mn = (if v < fst mm then v else fst mm);
               mx = (if v > snd mm then v else snd mm)
           in scan_window float32 start step' (i + 1) (mn, mx)
      else mm)"
  by pat_completeness auto
termination
  by (relation "measure (\<lambda>(float32, start, step', i, mm). step' - i)") auto

declare scan_window.simps [simp del]

text \<open>
  The outer loop: \<open>step = Math.max(1, Math.floor(float32.length / width))\<close>, and for each
  \<open>x < width\<close> the pair found from \<open>start = x * step\<close> with \<open>min = 1, max = -1\<close>. (For
  \<open>width = 0\<close> the loop body never runs, whatever \<open>step\<close> is.)
\<close>

definition drawFromPCM_pairs :: "real list \<Rightarrow> nat \<Rightarrow> (real \<times> real) list" where
  "drawFromPCM_pairs float32 width =
     (let step' = max 1 (length float32 div width)
      in map (\<lambda>x. scan_window float32 (x * step') step' 0 (1, - 1)) [0..<width])"

text \<open>The strokes: \<open>moveTo(x + 0.5, y1)\<close>, \<open>lineTo(x + 0.5, y2)\<close>.\<close>

definition drawFromPCM :: "real list \<Rightarrow> nat \<Rightarrow> real \<Rightarrow> ((real \<times> real) \<times> (real \<times> real)) list" where
  "drawFromPCM float32 width height =
     map (\<lambda>(x, mm).
            ((real x + 1/2, (1 - (fst mm * (9/10) + 1) / 2) * height),
             (real x + 1/2, (1 - (snd mm * (9/10) + 1) / 2) * height)))
         (zip [0..<width] (drawFromPCM_pairs float32 width))"

text \<open>
  The sampler in the words of the specification: \<open>targetWidth\<close> windows of
  \<open>ceil(len / targetWidth)\<close> samples, the minimum and maximum of each, and \<open>(0, 0)\<close>
  pairs for an empty input. (The specification gives no pair for a window past the end
  of the samples; it is \<open>(0, 0)\<close> here as well.)
\<close>

definition spec_window :: "real list \<Rightarrow> real \<times> real" where
  "spec_window w = (case w of [] \<Rightarrow> (0, 0) | v # vs \<Rightarrow> (fold min vs v, fold max vs v))"

definition spec_sample :: "real list \<Rightarrow> nat \<Rightarrow> (real \<times> real) list" where
  "spec_sample pcm targetWidth =
     (if pcm = [] then replicate targetWidth (0, 0)
      else let w = (length pcm + targetWidth - 1) div targetWidth
           in map (\<lambda>x. spec_window (take w (drop (x * w) pcm))) [0..<targetWidth])"

text \<open>The window of column \<open>x\<close> as the code reads it, and the fold of its loop.\<close>

definition code_window :: "real list \<Rightarrow> nat \<Rightarrow> nat \<Rightarrow> real list" where
  "code_window float32 width x =
     (let step' = max 1 (length float32 div width) in take step' (drop (x * step') float32))"

section \<open>Concrete inputs\<close>

text \<open>
  Three pauses: one half a millisecond into the video, then the two of the concrete
  scenario of the specification (12.0 s for 3.3 s, 47.1 s for 0.9 s).
\<close>

definition scenario_pauses :: "PauseRange list" where
  "scenario_pauses =
     [\<lparr>startVideoTime = 1/2000, pauseDuration = 1, frameDataURL = ''z''\<rparr>,
      \<lparr>startVideoTime = 12, pauseDuration = 33/10, frameDataURL = ''a''\<rparr>,
      \<lparr>startVideoTime = 471/10, pauseDuration = 9/10, frameDataURL = ''b''\<rparr>]"

text \<open>Five samples, for a canvas two pixels wide.\<close>

definition five_samples :: "real list" where
  "five_samples = [1/10, 2/10, 3/10, 4/10, 5/10]"

text \<open>
  A narration of three samples with one loud sample in the middle, three trim ranges, and
  a sequence of edits: two trims, three undos (the third finds the stack empty), a redo,
  a trim, and a redo that finds nothing to redo.
\<close>

definition loud_middle :: "real list" where
  "loud_middle = [0, 1/2, 0]"

definition range_a :: TrimRange where
  "range_a = \<lparr>range_start = 1/10, range_end = 9/10\<rparr>"

definition range_b :: TrimRange where
  "range_b = \<lparr>range_start = 2/10, range_end = 8/10\<rparr>"

definition range_c :: TrimRange where
  "range_c = \<lparr>range_start = 3/10, range_end = 7/10\<rparr>"

definition some_edits :: "edit list" where
  "some_edits =
     [ApplyTrim range_a, ApplyTrim range_b, Undo, Undo, Undo, Redo, ApplyTrim range_c, Redo]"

text \<open>
  A session that records a narration of two silent samples and then trims silence, and a
  session that records, pauses the video at 12 s and resumes it 3.3 s later.
\<close>

definition silent_session :: "event list" where
  "silent_session =
     [StartRecording True, StopRecording, RecorderStopped (Some [0, 0]), TrimSilenceClick]"

definition pause_session :: "event list" where
  "pause_session =
     [StartRecording True, VideoPlayEvent, TogglePause 5000 12 ''a'', VideoPauseEvent 5001,
      TogglePause 8301 12 ''b'', VideoPlayEvent]"

text \<open>The state of the second session after its first four events: the video is paused.\<close>

definition paused_state :: app where
  "paused_state = run (take 4 pause_session) initial_app"

text \<open>The application after a narration with the three samples has been recorded.\<close>

definition recorded_state :: app where
  "recorded_state = initial_app\<lparr>audioBlob := Some NarrationBlob, audioPCM := Some loud_middle\<rparr>"

text \<open>
  An environment in which everything outside the program works, and two engine messages:
  one with a progress percentage, one with a three-digit number before the percent sign.
\<close>

definition working_env :: environment where
  "working_env =
     \<lparr>library_present = True, call_ok = (\<lambda>c. True), video_fetch_ok = True,
      render_ok = (\<lambda>n samples. 0 < n), number_toString = (\<lambda>x. ''1e+21'')\<rparr>"



section \<open>The planning sweep: freeze segments\<close>

lemma freezes_loop:
  "freezes (map (entry_of T) (export_loop c k ps)) =
     map (\<lambda>p. (frameDataURL p, pauseDuration p)) ps"
  by (induction ps arbitrary: c k) (simp_all add: Let_def)

text \<open>
  C2. The plan holds one freeze segment per pause event, in the order of the pause
  events, and each freeze segment carries that event's still frame and its
  \<open>pauseDuration\<close> unchanged: the planner applies no minimum or maximum.
\<close>

theorem C2_one_freeze_per_pause:
  "freezes (plan totalDuration ps) = map (\<lambda>p. (frameDataURL p, pauseDuration p)) ps
   \<and> length (freezes (plan totalDuration ps)) = length ps
   \<and> map snd (freezes (plan totalDuration ps)) = map pauseDuration ps"
  by (simp add: plan_def export_clips_def freezes_loop comp_def)

text \<open>The three concrete scenarios of the specification.\<close>

lemma plan_examples:
  "plan 60 [\<lparr>startVideoTime = 12, pauseDuration = 33/10, frameDataURL = a\<rparr>,
            \<lparr>startVideoTime = 471/10, pauseDuration = 9/10, frameDataURL = b\<rparr>]
     = [RealSegment 0 12, FreezeSegment a (33/10), RealSegment 12 (471/10),
        FreezeSegment b (9/10), RealSegment (471/10) 60]"
  "plan 10 [] = [RealSegment 0 10]"
  "plan 5 [\<lparr>startVideoTime = 0, pauseDuration = 1, frameDataURL = a\<rparr>]
     = [FreezeSegment a 1, RealSegment 0 5]"
  by (simp_all add: plan_def export_clips_def Let_def)

section \<open>The planning sweep: real segments\<close>









section \<open>The waveform columns\<close>

lemma scan_window_fold:
  "scan_window f start st i mm =
     (fold min (take (st - i) (drop (start + i) f)) (fst mm),
      fold max (take (st - i) (drop (start + i) f)) (snd mm))"
proof (induction f start st i mm rule: scan_window.induct)
  case (1 f start st i mm)
  show ?case
  proof (cases "i < st \<and> start + i < length f")
    case True
    then have d: "drop (start + i) f = f ! (start + i) # drop (start + (i + 1)) f"
      by (simp add: Cons_nth_drop_Suc)
    from True have t: "st - i = Suc (st - (i + 1))" by arith
    have mn: "(if f ! (start + i) < fst mm then f ! (start + i) else fst mm) = min (f ! (start + i)) (fst mm)"
      by (simp add: min_def)
    have mx: "(if f ! (start + i) > snd mm then f ! (start + i) else snd mm) = max (f ! (start + i)) (snd mm)"
      by (simp add: max_def)
    from True have "scan_window f start st i mm =
        scan_window f start st (i + 1) (min (f ! (start + i)) (fst mm), max (f ! (start + i)) (snd mm))"
      by (subst scan_window.simps) (simp add: Let_def mn mx)
    also have "\<dots> = (fold min (take (st - (i + 1)) (drop (start + (i + 1)) f)) (min (f ! (start + i)) (fst mm)),
                     fold max (take (st - (i + 1)) (drop (start + (i + 1)) f)) (max (f ! (start + i)) (snd mm)))"
      using "1.IH" [OF True refl refl refl] by (simp add: mn mx)
    also have "\<dots> = (fold min (take (st - i) (drop (start + i) f)) (fst mm),
                     fold max (take (st - i) (drop (start + i) f)) (snd mm))"
      by (simp only: d t take_Suc_Cons fold_simps)
    finally show ?thesis .
  next
    case False
    then have e: "take (st - i) (drop (start + i) f) = []" by auto
    from False have "scan_window f start st i mm = mm"
      by (subst scan_window.simps) auto
    then show ?thesis by (simp add: e)
  qed
qed

lemma pairs_nth:
  "x < width \<Longrightarrow> drawFromPCM_pairs f width ! x =
     (fold min (code_window f width x) 1, fold max (code_window f width x) (- 1))"
  by (simp add: drawFromPCM_pairs_def code_window_def Let_def scan_window_fold)

lemma pairs_length: "length (drawFromPCM_pairs f width) = width"
  by (simp add: drawFromPCM_pairs_def Let_def)

lemma pairs_empty: "drawFromPCM_pairs [] width = replicate width (1, - 1)"
  by (simp add: drawFromPCM_pairs_def Let_def scan_window_fold map_replicate_const)

lemma fold_min_Min: "fold min (w :: real list) a = Min (insert a (set w))"
  by (metis Min.set_eq_fold list.simps(15))

lemma fold_max_Max: "fold max (w :: real list) a = Max (insert a (set w))"
  by (metis Max.set_eq_fold list.simps(15))

lemma windows_concat:
  "concat (map (\<lambda>x. take s (drop (x * s) f)) [0..<n]) = take (n * s) f"
proof (induction n)
  case 0
  then show ?case by simp
next
  case (Suc n)
  have "take (Suc n * s) f = take (n * s + s) f" by (simp add: add.commute)
  also have "\<dots> = take (n * s) f @ take s (drop (n * s) f)" by (rule take_add)
  finally show ?case using Suc by simp
qed


lemma Min_insert_top:
  "finite S \<Longrightarrow> S \<noteq> {} \<Longrightarrow> \<forall>v\<in>S. v \<le> (b::real) \<Longrightarrow> Min (insert b S) = Min S"
proof -
  assume f: "finite S" and n: "S \<noteq> {}" and u: "\<forall>v\<in>S. v \<le> b"
  from f n have "Min S \<in> S" by (rule Min_in)
  with u have "Min S \<le> b" by blast
  then have "min b (Min S) = Min S" by (rule min.absorb2)
  with Min_insert [OF f n, of b] show ?thesis by (simp only:)
qed

lemma Max_insert_bot:
  "finite S \<Longrightarrow> S \<noteq> {} \<Longrightarrow> \<forall>v\<in>S. (b::real) \<le> v \<Longrightarrow> Max (insert b S) = Max S"
proof -
  assume f: "finite S" and n: "S \<noteq> {}" and u: "\<forall>v\<in>S. b \<le> v"
  from f n have "Max S \<in> S" by (rule Max_in)
  with u have "b \<le> Max S" by blast
  then have "max b (Max S) = Max S" by (rule max.absorb2)
  with Max_insert [OF f n, of b] show ?thesis by (simp only:)
qed

lemma code_window_subset: "set (code_window f width x) \<subseteq> set f"
  by (auto simp: code_window_def Let_def dest: in_set_takeD in_set_dropD)

text \<open>
  C4 (amended). For every sample array and width the sampler yields exactly \<open>width\<close>
  pairs. Column \<open>x\<close> reads the window of \<open>step = max(1, floor(len / width))\<close> samples
  that starts at \<open>x * step\<close> (short or empty past the end of the samples); the windows
  in order make up the first \<open>width * step\<close> samples, and later samples are not read.
  The pair of a column is the minimum of its window and 1, and the maximum of its window
  and -1: for amplitudes in \<open>[-1, 1]\<close> and a window that is not empty, the window's
  minimum and maximum.
\<close>

theorem C4_waveform_windows:
  "length (drawFromPCM_pairs f width) = width
   \<and> concat (map (code_window f width) [0..<width])
       = take (width * max 1 (length f div width)) f
   \<and> (\<forall>x<width.
         code_window f width x
           = take (max 1 (length f div width)) (drop (x * max 1 (length f div width)) f)
         \<and> drawFromPCM_pairs f width ! x
           = (Min (insert 1 (set (code_window f width x))),
              Max (insert (- 1) (set (code_window f width x)))))
   \<and> (\<forall>x<width. code_window f width x \<noteq> [] \<and> (\<forall>v\<in>set f. - 1 \<le> v \<and> v \<le> 1) \<longrightarrow>
         drawFromPCM_pairs f width ! x
           = (Min (set (code_window f width x)), Max (set (code_window f width x))))"
proof -
  have a: "concat (map (code_window f width) [0..<width])
       = take (width * max 1 (length f div width)) f"
    unfolding code_window_def Let_def by (rule windows_concat)
  have b: "\<forall>x<width.
         code_window f width x
           = take (max 1 (length f div width)) (drop (x * max 1 (length f div width)) f)
         \<and> drawFromPCM_pairs f width ! x
           = (Min (insert 1 (set (code_window f width x))),
              Max (insert (- 1) (set (code_window f width x))))"
    by (simp add: pairs_nth fold_min_Min fold_max_Max) (simp add: code_window_def Let_def)
  have c: "\<forall>x<width. code_window f width x \<noteq> [] \<and> (\<forall>v\<in>set f. - 1 \<le> v \<and> v \<le> 1) \<longrightarrow>
         drawFromPCM_pairs f width ! x
           = (Min (set (code_window f width x)), Max (set (code_window f width x)))"
  proof (intro allI impI)
    fix x assume x: "x < width"
      and h: "code_window f width x \<noteq> [] \<and> (\<forall>v\<in>set f. - 1 \<le> v \<and> v \<le> 1)"
    let ?S = "set (code_window f width x)"
    from h have ne: "?S \<noteq> {}" by simp
    from h code_window_subset [of f width x] have up: "\<forall>v\<in>?S. v \<le> 1" and lo: "\<forall>v\<in>?S. - 1 \<le> v"
      by auto
    have "Min (insert 1 ?S) = Min ?S" using ne up by (intro Min_insert_top) simp_all
    moreover have "Max (insert (- 1) ?S) = Max ?S" using ne lo by (intro Max_insert_bot) simp_all
    ultimately show "drawFromPCM_pairs f width ! x = (Min ?S, Max ?S)"
      using b x by simp
  qed
  from a b c show ?thesis by (simp add: pairs_length)
qed

text \<open>C4 at five samples and a width of 2: the step is 2 and the fifth sample is not read.\<close>

theorem C4_waveform_windows_witness:
  "length (drawFromPCM_pairs five_samples 2) = 2
   \<and> list_all (\<lambda>v. - 1 \<le> v \<and> v \<le> 1) five_samples
   \<and> code_window five_samples 2 1 = [3/10, 4/10]
   \<and> drawFromPCM_pairs five_samples 2 ! 1 = (3/10, 4/10)
   \<and> concat (map (code_window five_samples 2) [0..<2]) = [1/10, 2/10, 3/10, 4/10]"
  using C4_waveform_windows [of five_samples 2]
  by (simp add: five_samples_def code_window_def upt_rec)

text \<open>
  Windows of \<open>ceil(len / width)\<close> samples, as the claim has them, give other pairs: at
  five samples and a width of 2 the code reads windows of 2 samples, not of 3.
\<close>

theorem C4_ceil_windows_counterexample:
  "drawFromPCM_pairs five_samples 2 = [(1/10, 2/10), (3/10, 4/10)]
   \<and> spec_sample five_samples 2 = [(1/10, 3/10), (4/10, 5/10)]
   \<and> drawFromPCM_pairs five_samples 2 \<noteq> spec_sample five_samples 2"
  by (simp add: five_samples_def drawFromPCM_pairs_def scan_window_fold spec_sample_def
      spec_window_def upt_rec)

text \<open>
  C5 (amended). For every width, an empty sample array yields exactly \<open>width\<close> pairs,
  each equal to \<open>(1, -1)\<close>: the initial values of \<open>min\<close> and \<open>max\<close>, which no sample
  replaces.
\<close>

theorem C5_empty_pcm_pairs:
  "drawFromPCM_pairs [] width = replicate width (1, - 1)
   \<and> length (drawFromPCM_pairs [] width) = width"
  by (simp add: pairs_empty)

text \<open>For a width of 100 the pairs of an empty array are not \<open>(0, 0)\<close>.\<close>

theorem C5_zero_pairs_counterexample:
  "drawFromPCM_pairs [] 100 = replicate 100 (1, - 1)
   \<and> spec_sample [] 100 = replicate 100 (0, 0)
   \<and> drawFromPCM_pairs [] 100 \<noteq> replicate 100 (0, 0)"
  by (simp add: pairs_empty spec_sample_def)

section \<open>The trim history\<close>

lemma replay_last: "replay r0 trims = last (r0 # trims)"
  unfolding replay_def by (induction trims arbitrary: r0) simp_all

lemma chain_append:
  "chain a (xs @ ys) = (chain a xs \<and> chain (last (a # map item_to xs)) ys)"
  by (induction xs arbitrary: a) simp_all

lemma history_inv_current:
  "history_inv r0 s \<Longrightarrow> lin_current r0 (history_of s) = trimRange s"
  by (simp add: history_inv_def history_of_def lin_current_def replay_last)

lemma applyTrim_history:
  assumes "history_inv r0 s"
  shows "history_inv r0 (applyTrim r s) \<and> history_of (applyTrim r s) = lin_step (ApplyTrim r) (history_of s)"
  using assms by (simp add: history_inv_def history_of_def applyTrim_def chain_append)

lemma undo_history:
  assumes "history_inv r0 s"
  shows "history_inv r0 (undo_click s) \<and> history_of (undo_click s) = lin_step Undo (history_of s)"
proof (cases "undoStack s")
  case Nil
  with assms show ?thesis by (simp add: undo_click_def history_of_def)
next
  case (Cons it us)
  with assms show ?thesis
    by (simp add: history_inv_def history_of_def undo_click_def chain_append)
qed

lemma redo_history:
  assumes "history_inv r0 s"
  shows "history_inv r0 (redo_click s) \<and> history_of (redo_click s) = lin_step Redo (history_of s)"
proof (cases "redoStack s")
  case Nil
  with assms show ?thesis by (simp add: redo_click_def history_of_def)
next
  case (Cons it rs)
  with assms show ?thesis
    by (simp add: history_inv_def history_of_def redo_click_def chain_append)
qed

lemma edit_step_history:
  "history_inv r0 s \<Longrightarrow>
   history_inv r0 (edit_step e s) \<and> history_of (edit_step e s) = lin_step e (history_of s)"
  by (cases e) (simp_all add: applyTrim_history undo_history redo_history)

lemma fold_edits_history:
  "history_inv r0 s \<Longrightarrow>
   history_inv r0 (fold edit_step es s) \<and> history_of (fold edit_step es s) = fold lin_step es (history_of s)"
proof (induction es arbitrary: s)
  case Nil
  then show ?case by simp
next
  case (Cons e es)
  from edit_step_history [OF Cons.prems, of e]
  have i: "history_inv r0 (edit_step e s)" and h: "history_of (edit_step e s) = lin_step e (history_of s)"
    by simp_all
  from Cons.IH [OF i] h show ?case by simp
qed

lemma empty_stacks_inv:
  "undoStack s = [] \<Longrightarrow> redoStack s = [] \<Longrightarrow> history_inv (trimRange s) s \<and> history_of s = ([], 0)"
  by (simp add: history_inv_def history_of_def)

text \<open>
  C3. The trim handler, when there are samples, applies the new range: it pushes
  \<open>{from: current range, to: new range}\<close> on the undo stack, makes the new range
  current and empties the redo stack. Undo on an empty undo stack changes nothing;
  otherwise it pops the item, restores its \<open>from\<close> range and pushes the item on the redo
  stack. Redo is symmetric and restores \<open>to\<close>. Starting with both stacks empty, after
  any sequence of trims, undos and redos the current range is the replay of the
  applied prefix of the linear history of trims, and the two stacks hold that history.
\<close>

theorem C3_trim_history:
  "(audioPCM s = Some pcm \<longrightarrow>
      trimSilence_click s = applyTrim (silence_range pcm) s)
   \<and> applyTrim r s =
       s\<lparr>trimRange := r,
         undoStack := \<lparr>item_from = trimRange s, item_to = r\<rparr> # undoStack s,
         redoStack := []\<rparr>
   \<and> undo_click (s\<lparr>undoStack := []\<rparr>) = s\<lparr>undoStack := []\<rparr>
   \<and> undo_click (s\<lparr>undoStack := item # rest\<rparr>) =
       s\<lparr>undoStack := rest, redoStack := item # redoStack s, trimRange := item_from item\<rparr>
   \<and> redo_click (s\<lparr>redoStack := []\<rparr>) = s\<lparr>redoStack := []\<rparr>
   \<and> redo_click (s\<lparr>redoStack := item # rest\<rparr>) =
       s\<lparr>redoStack := rest, undoStack := item # undoStack s, trimRange := item_to item\<rparr>
   \<and> (undoStack s = [] \<and> redoStack s = [] \<longrightarrow>
        trimRange (run_edits es s) = lin_current (trimRange s) (lin_run es)
        \<and> history_of (run_edits es s) = lin_run es)"
proof -
  have hist: "undoStack s = [] \<and> redoStack s = [] \<longrightarrow>
        trimRange (run_edits es s) = lin_current (trimRange s) (lin_run es)
        \<and> history_of (run_edits es s) = lin_run es"
  proof
    assume e: "undoStack s = [] \<and> redoStack s = []"
    then have i: "history_inv (trimRange s) s" and h: "history_of s = ([], 0)"
      using empty_stacks_inv [of s] by simp_all
    from fold_edits_history [OF i, of es] h
    have i': "history_inv (trimRange s) (run_edits es s)"
      and h': "history_of (run_edits es s) = lin_run es"
      by (simp_all add: run_edits_def lin_run_def)
    from history_inv_current [OF i'] h'
    show "trimRange (run_edits es s) = lin_current (trimRange s) (lin_run es)
        \<and> history_of (run_edits es s) = lin_run es" by simp
  qed
  show ?thesis
    by (intro conjI hist) (simp_all add: trimSilence_click_def applyTrim_def undo_click_def redo_click_def)
qed


lemmas session_simps = run_def initial_app_def startRecording_def stopRecording_def
  recorder_onstop_def togglePause_def on_video_pause_def on_video_play_def
  trimSilence_click_def applyTrim_def undo_click_def redo_click_def

text \<open>
  C3 at the recorded narration and the sequence of edits: the third undo and the last
  redo change nothing, and the trim after the redo discards the second trim.
\<close>

theorem C3_trim_history_witness:
  "audioPCM recorded_state = Some loud_middle
   \<and> undoStack recorded_state = [] \<and> redoStack recorded_state = []
   \<and> trimRange (trimSilence_click recorded_state) = \<lparr>range_start = 1/3, range_end = 2/3\<rparr>
   \<and> lin_run some_edits = ([range_a, range_c], 2)
   \<and> trimRange (run_edits some_edits recorded_state) = range_c
   \<and> undoStack (run_edits some_edits recorded_state)
       = [\<lparr>item_from = range_a, item_to = range_c\<rparr>,
          \<lparr>item_from = \<lparr>range_start = 0, range_end = 1\<rparr>, item_to = range_a\<rparr>]
   \<and> redoStack (run_edits some_edits recorded_state) = []"
  using C3_trim_history [of recorded_state loud_middle range_a
      "\<lparr>item_from = range_a, item_to = range_b\<rparr>" "[]" some_edits]
  by (simp add: recorded_state_def some_edits_def run_edits_def lin_run_def session_simps
      silence_range_def scan_lead.simps scan_trail.simps loud_middle_def)

section \<open>The trim range of a silent narration\<close>

text \<open>
  C8. The session records a narration of two samples, both below the threshold, and
  trims silence. The first loop runs \<open>i\<close> to the length, the second runs \<open>j\<close> to 0, and
  the new range is \<open>{start: 1, end: 1/2}\<close>: its start lies above its end.
\<close>

theorem C8_silent_buffer_breaks_range:
  "audioPCM (run (butlast silent_session) initial_app) = Some [0, 0]
   \<and> trimRange (run (butlast silent_session) initial_app) = \<lparr>range_start = 0, range_end = 1\<rparr>
   \<and> trimRange (run silent_session initial_app) = \<lparr>range_start = 1, range_end = 1/2\<rparr>
   \<and> \<not> valid_range (trimRange (run silent_session initial_app))"
  by (simp add: silent_session_def session_simps silence_range_def scan_lead.simps
      scan_trail.simps valid_range_def)

text \<open>
  The two loops on a buffer with a loud sample at index \<open>k\<close>: the first stops at or
  before \<open>k\<close>, the second at or after it.
\<close>

lemma scan_lead_le:
  "i \<le> k \<Longrightarrow> k < length pcm \<Longrightarrow> \<not> \<bar>pcm ! k\<bar> < 2/100 \<Longrightarrow> scan_lead pcm i \<le> k"
proof (induction pcm i rule: scan_lead.induct)
  case (1 pcm i)
  show ?case
  proof (cases "i < length pcm \<and> \<bar>pcm ! i\<bar> < 2/100")
    case True
    with "1.prems" have "i \<noteq> k" by auto
    with "1.prems" have "i + 1 \<le> k" by simp
    from True have eq: "scan_lead pcm i = scan_lead pcm (i + 1)"
      by (subst scan_lead.simps) simp
    from "1.IH" [OF True \<open>i + 1 \<le> k\<close> "1.prems"(2,3)] show ?thesis unfolding eq .
  next
    case False
    then have "scan_lead pcm i = i" by (subst scan_lead.simps) auto
    with "1.prems" show ?thesis by simp
  qed
qed

lemma scan_trail_bounds:
  "0 \<le> j \<Longrightarrow> 0 \<le> scan_trail pcm j \<and> scan_trail pcm j \<le> j"
proof (induction pcm j rule: scan_trail.induct)
  case (1 pcm j)
  show ?case
  proof (cases "j > 0 \<and> \<bar>pcm ! nat j\<bar> < 2/100")
    case True
    then have "0 \<le> j - 1" by simp
    from True have eq: "scan_trail pcm j = scan_trail pcm (j - 1)"
      by (subst scan_trail.simps) simp
    from "1.IH" [OF True \<open>0 \<le> j - 1\<close>] show ?thesis unfolding eq by simp
  next
    case False
    then have "scan_trail pcm j = j" by (subst scan_trail.simps) auto
    with "1.prems" show ?thesis by simp
  qed
qed

lemma scan_trail_ge:
  "int k \<le> j \<Longrightarrow> \<not> \<bar>pcm ! k\<bar> < 2/100 \<Longrightarrow> int k \<le> scan_trail pcm j"
proof (induction pcm j rule: scan_trail.induct)
  case (1 pcm j)
  show ?case
  proof (cases "j > 0 \<and> \<bar>pcm ! nat j\<bar> < 2/100")
    case True
    with "1.prems" have "nat j \<noteq> k" by auto
    with "1.prems" True have "int k \<le> j - 1" by linarith
    from True have eq: "scan_trail pcm j = scan_trail pcm (j - 1)"
      by (subst scan_trail.simps) simp
    from "1.IH" [OF True \<open>int k \<le> j - 1\<close> "1.prems"(2)] show ?thesis unfolding eq .
  next
    case False
    then have "scan_trail pcm j = j" by (subst scan_trail.simps) auto
    with "1.prems" show ?thesis by simp
  qed
qed

lemma silence_range_valid: "audible pcm \<Longrightarrow> valid_range (silence_range pcm)"
proof -
  assume "audible pcm"
  then obtain k where k: "k < length pcm" and loud: "\<not> \<bar>pcm ! k\<bar> < 2/100"
    unfolding audible_def by (auto simp: in_set_conv_nth)
  let ?i = "scan_lead pcm 0" and ?j = "scan_trail pcm (int (length pcm) - 1)"
  from k have len: "0 < length pcm" by (cases pcm) simp_all
  have i: "?i \<le> k" by (rule scan_lead_le [OF _ k loud]) simp
  from k have "int k \<le> int (length pcm) - 1" by simp
  from scan_trail_ge [OF this loud] have j: "int k \<le> ?j" .
  from len have "0 \<le> int (length pcm) - 1" by simp
  from scan_trail_bounds [OF this] have ju: "?j \<le> int (length pcm) - 1" by simp
  from i j have "real ?i \<le> real_of_int ?j + 1" by linarith
  moreover from ju have "real_of_int ?j + 1 \<le> real (length pcm)" by linarith
  ultimately show ?thesis
    using len by (simp add: valid_range_def silence_range_def Let_def divide_right_mono)
qed

lemma step_trim_inv:
  assumes "trim_inv s" and "audible_event e"
  shows "trim_inv (step e s)"
proof (cases e)
  case TrimSilenceClick
  show ?thesis
  proof (cases "audioPCM s")
    case None
    with assms TrimSilenceClick show ?thesis by (simp add: trimSilence_click_def)
  next
    case (Some pcm)
    with assms have "valid_range (silence_range pcm)"
      by (simp add: trim_inv_def silence_range_valid)
    with assms Some TrimSilenceClick show ?thesis
      by (simp add: trim_inv_def trimSilence_click_def applyTrim_def)
  qed
next
  case UndoClick
  with assms show ?thesis
    by (cases "undoStack s") (simp_all add: trim_inv_def undo_click_def)
next
  case RedoClick
  with assms show ?thesis
    by (cases "redoStack s") (simp_all add: trim_inv_def redo_click_def)
next
  case (RecorderStopped decoded)
  with assms show ?thesis
    by (cases decoded) (simp_all add: trim_inv_def recorder_onstop_def)
next
  case (TogglePause now ct fr)
  with assms show ?thesis
    by (simp add: trim_inv_def togglePause_def Let_def split: option.splits)
qed (use assms in \<open>simp_all add: trim_inv_def startRecording_def stopRecording_def
      on_video_pause_def on_video_play_def\<close>)

text \<open>
  As long as every recorded narration has a sample at or above the threshold, the trim
  range stays within \<open>0 \<le> start \<le> end \<le> 1\<close> through trims, undos and redos.
\<close>

lemma audible_sessions_keep_range_valid:
  "list_all audible_event evs \<Longrightarrow> trim_inv s \<Longrightarrow> trim_inv (fold step evs s)"
proof (induction evs arbitrary: s)
  case Nil
  then show ?case by simp
next
  case (Cons e evs)
  from Cons.prems have "trim_inv (step e s)" by (simp add: step_trim_inv)
  with Cons.IH Cons.prems show ?case by simp
qed

lemma audible_sessions_valid_range:
  "list_all audible_event evs \<Longrightarrow> valid_range (trimRange (run evs initial_app))"
proof -
  assume a: "list_all audible_event evs"
  have "trim_inv initial_app" by (simp add: trim_inv_def initial_app_def valid_range_def)
  from audible_sessions_keep_range_valid [OF a this] show ?thesis
    by (simp add: trim_inv_def run_def)
qed

section \<open>The pause ledger\<close>

lemma step_pauses_floor:
  assumes "\<forall>p\<in>set (pauses s). 1/100 \<le> pauseDuration p"
  shows "\<forall>p\<in>set (pauses (step e s)). 1/100 \<le> pauseDuration p"
proof (cases e)
  case (TogglePause now ct fr)
  with assms show ?thesis
    by (auto simp: togglePause_def Let_def split: option.splits)
qed (use assms in \<open>auto simp: startRecording_def stopRecording_def recorder_onstop_def
      on_video_pause_def on_video_play_def trimSilence_click_def applyTrim_def undo_click_def
      redo_click_def split: option.splits list.splits\<close>)

lemma fold_step_pauses_floor:
  "\<forall>p\<in>set (pauses s). 1/100 \<le> pauseDuration p \<Longrightarrow>
   \<forall>p\<in>set (pauses (fold step evs s)). 1/100 \<le> pauseDuration p"
proof (induction evs arbitrary: s)
  case Nil
  then show ?case by simp
next
  case (Cons e evs)
  from Cons.IH [OF step_pauses_floor [OF Cons.prems, of e]] show ?case by simp
qed

text \<open>
  C9. After any sequence of events from the initial state, every pause event in the
  ledger has a \<open>pauseDuration\<close> of at least 0.01 s, and every sequence of events keeps
  that true of a ledger. A resume, when the start of the pause was noted at \<open>prev\<close>,
  appends one event whose duration is the elapsed time \<open>(now - prev) / 1000\<close>, raised to
  0.01 s if it is less.
\<close>

theorem C9_pause_duration_floor:
  "(\<forall>p\<in>set (pauses (run evs initial_app)). 1/100 \<le> pauseDuration p)
   \<and> ((\<forall>p\<in>set (pauses s). 1/100 \<le> pauseDuration p) \<longrightarrow>
        (\<forall>p\<in>set (pauses (run evs s)). 1/100 \<le> pauseDuration p))
   \<and> (isRecording s \<and> video_paused s \<and> vpv_lastPause s = Some (t, f)
        \<and> vpv_pauseStartAt s = Some prev \<and> prev \<noteq> 0 \<longrightarrow>
        pauses (togglePause now ct fr s) =
          pauses s @ [\<lparr>startVideoTime = t, pauseDuration = max (1/100) ((now - prev) / 1000),
                      frameDataURL = f\<rparr>])"
proof -
  have a: "\<forall>p\<in>set (pauses (run evs initial_app)). 1/100 \<le> pauseDuration p"
    unfolding run_def by (rule fold_step_pauses_floor) (simp add: initial_app_def)
  have b: "(\<forall>p\<in>set (pauses s). 1/100 \<le> pauseDuration p) \<longrightarrow>
        (\<forall>p\<in>set (pauses (run evs s)). 1/100 \<le> pauseDuration p)"
    unfolding run_def using fold_step_pauses_floor by blast
  have c: "isRecording s \<and> video_paused s \<and> vpv_lastPause s = Some (t, f)
        \<and> vpv_pauseStartAt s = Some prev \<and> prev \<noteq> 0 \<longrightarrow>
        pauses (togglePause now ct fr s) =
          pauses s @ [\<lparr>startVideoTime = t, pauseDuration = max (1/100) ((now - prev) / 1000),
                      frameDataURL = f\<rparr>]"
    by (simp add: togglePause_def Let_def)
  from a b c show ?thesis by blast
qed


text \<open>
  C9 at the session that pauses at 12 s and resumes 3.3 s later, and at a resume two
  milliseconds after the pause, whose duration is raised to 0.01 s.
\<close>

theorem C9_pause_duration_floor_witness:
  "pauses (run pause_session initial_app)
     = [\<lparr>startVideoTime = 12, pauseDuration = 33/10, frameDataURL = ''a''\<rparr>]
   \<and> list_all (\<lambda>p. 1/100 \<le> pauseDuration p) (pauses (run pause_session initial_app))
   \<and> isRecording paused_state \<and> video_paused paused_state
   \<and> vpv_lastPause paused_state = Some (12, ''a'')
   \<and> vpv_pauseStartAt paused_state = Some 5001
   \<and> pauses paused_state = []
   \<and> pauses (togglePause 5003 12 ''b'' paused_state)
     = [\<lparr>startVideoTime = 12, pauseDuration = 1/100, frameDataURL = ''a''\<rparr>]"
  using C9_pause_duration_floor [of pause_session paused_state 12 "''a''" 5001 5003 12 "''b''"]
  by (simp add: paused_state_def pause_session_def session_simps)

section \<open>Export without a narration\<close>

lemma perform_nonempty: "cs \<noteq> [] \<Longrightarrow> fst (perform ok cs) \<noteq> []"
  by (cases cs) auto

text \<open>With a narration, a video that can be fetched and the library present, the engine is called.\<close>

lemma doExport_reaches_engine:
  assumes "audioBlob s = Some b" and "audioPCM s = None" and "video_fetch_ok env"
    and "library_present env"
  shows "fst (doExport env s) \<noteq> []"
proof -
  let ?cs = "[CreateFFmpeg, Load]
    @ export_calls (number_toString env) VideoBlob b (pauses s) (normalizeChk s)"
  have "fst (perform (call_ok env) ?cs) \<noteq> []" by (rule perform_nonempty) simp
  with assms show ?thesis
    by (simp add: doExport_def Exporter_export_def Let_def split: prod.splits sum.splits)
qed

text \<open>
  C6. When no narration has been recorded (\<open>audioBlob\<close> is null), \<open>doExport\<close> reports
  that there is no recorded narration and makes no call on the engine: it returns before
  an exporter is created, the engine acquired or an input staged.
\<close>

theorem C6_no_narration_no_engine:
  "audioBlob s = None \<longrightarrow> doExport env s = ([], Alert NoNarrationRecorded)"
  by (simp add: doExport_def)

text \<open>C6 at the initial state, in an environment where every engine call would succeed.\<close>

theorem C6_no_narration_no_engine_witness:
  "audioBlob initial_app = None
   \<and> doExport working_env initial_app = ([], Alert NoNarrationRecorded)"
  using C6_no_narration_no_engine [of initial_app working_env]
  by (simp add: initial_app_def)

section \<open>The progress logger\<close>













section \<open>Times handed to the engine\<close>

lemma digit_char_props:
  "d < 10 \<Longrightarrow> is_digit_char (digit_char d) \<and> digit_val (digit_char d) = d"
proof -
  assume "d < 10"
  then have "d = 0 \<or> d = 1 \<or> d = 2 \<or> d = 3 \<or> d = 4 \<or> d = 5 \<or> d = 6 \<or> d = 7
    \<or> d = 8 \<or> d = 9" by arith
  then show ?thesis
    by (elim disjE) (simp_all add: is_digit_char_def digit_val_def digit_char_def)
qed

lemma replicate_numeral: "replicate (numeral k) x = x # replicate (pred_numeral k) x"
  by (simp add: numeral_eq_Suc)

lemma digits_all: "list_all is_digit_char (digits n)"
proof (induction n rule: digits.induct)
  case (1 n)
  show ?case
  proof (cases "n < 10")
    case True
    then show ?thesis by (subst digits.simps) (simp add: digit_char_props)
  next
    case False
    with "1.IH" show ?thesis by (subst digits.simps) (simp add: digit_char_props)
  qed
qed

lemma digits_nonempty: "digits n \<noteq> []"
  by (subst digits.simps) simp

lemma nat_of_digits_snoc: "nat_of_digits (xs @ [c]) = 10 * nat_of_digits xs + digit_val c"
  by (simp add: nat_of_digits_def)

lemma nat_of_digits_digits: "nat_of_digits (digits n) = n"
proof (induction n rule: digits.induct)
  case (1 n)
  show ?case
  proof (cases "n < 10")
    case True
    then show ?thesis
      by (subst digits.simps) (simp add: nat_of_digits_def digit_char_props)
  next
    case False
    with "1.IH" show ?thesis
      by (subst digits.simps) (simp add: nat_of_digits_snoc digit_char_props)
  qed
qed

lemma nat_of_digits_append:
  "nat_of_digits (xs @ ys) = nat_of_digits xs * 10 ^ length ys + nat_of_digits ys"
proof (induction ys rule: rev_induct)
  case Nil
  then show ?case by (simp add: nat_of_digits_def)
next
  case (snoc y ys)
  have "nat_of_digits (xs @ ys @ [y]) = 10 * nat_of_digits (xs @ ys) + digit_val y"
    using nat_of_digits_snoc [of "xs @ ys" y] by simp
  with snoc show ?case by (simp add: nat_of_digits_snoc algebra_simps)
qed

lemma nat_of_digits_zeros: "nat_of_digits (replicate z (CHR ''0'')) = 0"
  by (induction z) (simp_all add: nat_of_digits_def digit_val_def)

lemma zero_is_digit: "is_digit_char (CHR ''0'')"
  by (simp add: is_digit_char_def)

lemma digit_not_minus: "is_digit_char c \<Longrightarrow> c \<noteq> CHR ''-''"
  by (auto simp: is_digit_char_def)

lemma toFixed3_shape:
  assumes small: "\<bar>t\<bar> < 10 ^ 21"
  shows "\<exists>ip fp. toFixed3 ts t = (if t < 0 then ''-'' else []) @ ip @ ''.'' @ fp
           \<and> ip \<noteq> [] \<and> list_all is_digit_char ip \<and> length fp = 3 \<and> list_all is_digit_char fp
           \<and> nat_of_digits ip * 1000 + nat_of_digits fp = nat \<lfloor>\<bar>t\<bar> * 1000 + 1/2\<rfloor>"
proof -
  define n where "n = nat \<lfloor>\<bar>t\<bar> * 1000 + 1/2\<rfloor>"
  define m where "m = (if n = 0 then ''0'' else digits n)"
  define k where "k = length m"
  define m' where "m' = (if k \<le> 3 then replicate (3 + 1 - k) (CHR ''0'') @ m else m)"
  define k' where "k' = (if k \<le> 3 then 3 + 1 else k)"
  define ip where "ip = take (k' - 3) m'"
  define fp where "fp = drop (k' - 3) m'"
  have "digits 0 = ''0''" by (subst digits.simps) (simp add: digit_char_def)
  then have m_digits: "m = digits n"
    unfolding m_def by simp
  have m_all: "list_all is_digit_char m" and m_val: "nat_of_digits m = n" and "m \<noteq> []"
    unfolding m_digits by (rule digits_all nat_of_digits_digits digits_nonempty)+
  then have kpos: "0 < k" by (simp add: k_def)
  have len: "length m' = k'" and k4: "4 \<le> k'"
    using kpos by (auto simp: m'_def k'_def k_def)
  have all: "list_all is_digit_char m'"
    using m_all by (simp add: m'_def zero_is_digit list_all_iff)
  have val: "nat_of_digits m' = n"
    using m_val by (simp add: m'_def nat_of_digits_append nat_of_digits_zeros)
  have split: "m' = ip @ fp" by (simp add: ip_def fp_def)
  have lf: "length fp = 3" using len k4 by (simp add: fp_def)
  have ne: "ip \<noteq> []" using len k4 by (auto simp: ip_def)
  from all split have ia: "list_all is_digit_char ip" and fa: "list_all is_digit_char fp"
    by simp_all
  from val split lf have v: "nat_of_digits ip * 1000 + nat_of_digits fp = n"
    by (simp add: nat_of_digits_append)
  from small have x: "\<not> (if t < 0 then - t else t) \<ge> 10 ^ 21" by (simp add: abs_if)
  have ab: "(if t < 0 then - t else t) = \<bar>t\<bar>" by (simp add: abs_if)
  have "toFixed3 ts t = (if t < 0 then ''-'' else []) @ ip @ ''.'' @ fp"
    unfolding toFixed3_def Let_def ip_def fp_def m'_def k'_def k_def m_def n_def
    using x by (simp only: ab if_False) 
  with ne ia fa lf v show ?thesis unfolding n_def by blast
qed

lemma fixed3_of_shape:
  assumes "s = [] \<or> s = ''-''" and "ip \<noteq> []" and "list_all is_digit_char ip"
    and "length fp = 3" and "list_all is_digit_char fp"
  shows "is_fixed3 (s @ ip @ ''.'' @ fp)
       \<and> ms_of (s @ ip @ ''.'' @ fp) = nat_of_digits ip * 1000 + nat_of_digits fp"
proof -
  from assms(2,3) have "hd ip \<noteq> CHR ''-''"
    by (cases ip) (auto dest: digit_not_minus)
  with assms(1,2) have u: "unsigned (s @ ip @ ''.'' @ fp) = ip @ ''.'' @ fp"
    by (cases ip) (auto simp: unsigned_def)
  have l: "length (ip @ ''.'' @ fp) - 4 = length ip" "length (ip @ ''.'' @ fp) - 3 = Suc (length ip)"
    using assms(4) by simp_all
  from assms(2) have p: "Suc 0 \<le> length ip" by (cases ip) simp_all
  show ?thesis
    unfolding is_fixed3_def ms_of_def u Let_def l
    using assms p by (simp add: nth_append)
qed

lemma round_ms:
  fixes x :: real
  assumes "0 \<le> x"
  shows "\<bar>real (nat \<lfloor>x * 1000 + 1/2\<rfloor>) / 1000 - x\<bar> \<le> 1/2000"
proof -
  define y where "y = x * 1000 + 1/2"
  define n where "n = real_of_int \<lfloor>y\<rfloor>"
  from assms have "0 \<le> \<lfloor>y\<rfloor>" by (simp add: y_def)
  then have r: "real (nat \<lfloor>y\<rfloor>) = n" by (simp add: n_def)
  have "n \<le> y" and "y < n + 1" unfolding n_def by linarith+
  then have "n / 1000 - x \<le> 1/2000" and "- (n / 1000 - x) \<le> 1/2000"
    unfolding y_def by linarith+
  then have "\<bar>n / 1000 - x\<bar> \<le> 1/2000" by (rule abs_leI)
  then show ?thesis unfolding r [symmetric] y_def .
qed

lemma fmtTime_fixed3:
  assumes "\<bar>t\<bar> < 10 ^ 21"
  shows "is_fixed3 (fmtTime ts t)
       \<and> ms_of (fmtTime ts t) = nat \<lfloor>\<bar>t\<bar> * 1000 + 1/2\<rfloor>
       \<and> \<bar>real (ms_of (fmtTime ts t)) / 1000 - \<bar>t\<bar>\<bar> \<le> 1/2000
       \<and> (take 1 (fmtTime ts t) = ''-'' \<longleftrightarrow> t < 0)"
proof -
  from toFixed3_shape [OF assms, of ts] obtain ip fp where
    eq: "toFixed3 ts t = (if t < 0 then ''-'' else []) @ ip @ ''.'' @ fp"
    and ne: "ip \<noteq> []" and ia: "list_all is_digit_char ip" and lf: "length fp = 3"
    and fa: "list_all is_digit_char fp"
    and v: "nat_of_digits ip * 1000 + nat_of_digits fp = nat \<lfloor>\<bar>t\<bar> * 1000 + 1/2\<rfloor>"
    by blast
  have s: "(if t < 0 then ''-'' else []) = [] \<or> (if t < 0 then ''-'' else []) = ''-''" by simp
  from fixed3_of_shape [OF s ne ia lf fa] eq v
  have a: "is_fixed3 (fmtTime ts t)"
    and b: "ms_of (fmtTime ts t) = nat \<lfloor>\<bar>t\<bar> * 1000 + 1/2\<rfloor>"
    by (simp_all add: fmtTime_def)
  have c: "\<bar>real (ms_of (fmtTime ts t)) / 1000 - \<bar>t\<bar>\<bar> \<le> 1/2000"
    unfolding b by (rule round_ms) simp
  from ne ia have "hd ip \<noteq> CHR ''-''" by (cases ip) (auto dest: digit_not_minus)
  with ne eq have d: "take 1 (fmtTime ts t) = ''-'' \<longleftrightarrow> t < 0"
    by (cases ip) (auto simp: fmtTime_def)
  from a b c d show ?thesis by blast
qed

lemma clip_time_args: "time_args (clip_args ts c) = map (fmtTime ts) (clip_times c)"
  by (cases c) (simp_all add: seg_name_def still_name_def)

lemma clip_calls_time_args:
  "concat (map call_time_args (clip_calls ts c)) = map (fmtTime ts) (clip_times c)"
  by (cases c) (simp_all add: seg_name_def still_name_def)

lemma clips_time_args:
  "concat (map call_time_args (concat (map (clip_calls ts) cs)))
     = map (fmtTime ts) (concat (map clip_times cs))"
  by (induction cs) (simp_all add: clip_calls_time_args)

lemma export_calls_time_args:
  "concat (map call_time_args (export_calls ts video audio ps nrm))
     = map (fmtTime ts) (export_times ps)"
  by (simp add: export_calls_def export_times_def clips_time_args)

text \<open>
  C10. The time values among the arguments of the engine calls of an export are, in
  order, \<open>fmtTime\<close> of the numbers the loop formats: each real segment's start and end,
  each freeze clip's duration and the tail's start. For a number of magnitude below
  \<open>10\<^sup>2\<^sup>1\<close> (where \<open>toFixed\<close> writes fixed notation) \<open>fmtTime\<close> gives decimal digits,
  a point and exactly three decimal digits, after a minus sign for a negative number; the
  value written is the nearest whole number of milliseconds (the upper one on a tie), so
  it is within half a millisecond of the number. Hence every time value of an export whose
  numbers are below that magnitude has exactly three fraction digits.
\<close>

theorem C10_times_quantized:
  "concat (map call_time_args (export_calls ts video audio ps nrm))
     = map (fmtTime ts) (export_times ps)
   \<and> (\<bar>t\<bar> < 10 ^ 21 \<longrightarrow>
        is_fixed3 (fmtTime ts t)
        \<and> ms_of (fmtTime ts t) = nat \<lfloor>\<bar>t\<bar> * 1000 + 1/2\<rfloor>
        \<and> \<bar>real (ms_of (fmtTime ts t)) / 1000 - \<bar>t\<bar>\<bar> \<le> 1/2000
        \<and> (take 1 (fmtTime ts t) = ''-'' \<longleftrightarrow> t < 0))
   \<and> ((\<forall>t\<in>set (export_times ps). \<bar>t\<bar> < 10 ^ 21) \<longrightarrow>
        (\<forall>str\<in>set (concat (map call_time_args (export_calls ts video audio ps nrm))).
           is_fixed3 str))"
proof -
  have a: "concat (map call_time_args (export_calls ts video audio ps nrm))
     = map (fmtTime ts) (export_times ps)"
    by (rule export_calls_time_args)
  have b: "\<bar>t\<bar> < 10 ^ 21 \<longrightarrow>
        is_fixed3 (fmtTime ts t)
        \<and> ms_of (fmtTime ts t) = nat \<lfloor>\<bar>t\<bar> * 1000 + 1/2\<rfloor>
        \<and> \<bar>real (ms_of (fmtTime ts t)) / 1000 - \<bar>t\<bar>\<bar> \<le> 1/2000
        \<and> (take 1 (fmtTime ts t) = ''-'' \<longleftrightarrow> t < 0)"
    using fmtTime_fixed3 by blast
  have c: "(\<forall>t\<in>set (export_times ps). \<bar>t\<bar> < 10 ^ 21) \<longrightarrow>
        (\<forall>str\<in>set (concat (map call_time_args (export_calls ts video audio ps nrm))).
           is_fixed3 str)"
    unfolding a using fmtTime_fixed3 by auto
  from a b c show ?thesis by blast
qed

lemmas fmtTime_simps = fmtTime_def toFixed3_def Let_def digits.simps digit_char_def
  replicate_numeral

text \<open>C10 at 47.1 s and at the export of the concrete pauses.\<close>

theorem C10_times_quantized_witness:
  "\<bar>471/10 :: real\<bar> < 10 ^ 21
   \<and> fmtTime (\<lambda>x. []) (471/10) = ''47.100''
   \<and> is_fixed3 ''47.100'' \<and> ms_of ''47.100'' = 47100
   \<and> export_times scenario_pauses = [1, 1/2000, 12, 33/10, 12, 471/10, 9/10, 471/10]
   \<and> list_all (\<lambda>t. \<bar>t\<bar> < 10 ^ 21) (export_times scenario_pauses)
   \<and> concat (map call_time_args
         (export_calls (\<lambda>x. []) VideoBlob NarrationBlob scenario_pauses False))
       = [''1.000'', ''0.001'', ''12.000'', ''3.300'', ''12.000'', ''47.100'', ''0.900'',
          ''47.100'']
   \<and> list_all is_fixed3 [''1.000'', ''0.001'', ''12.000'', ''3.300'', ''12.000'', ''47.100'',
          ''0.900'', ''47.100'']"
  using C10_times_quantized [of "\<lambda>x. []" VideoBlob NarrationBlob scenario_pauses False "471/10"]
  by (simp add: export_times_def export_clips_def scenario_pauses_def fmtTime_simps
      is_fixed3_def unsigned_def is_digit_char_def)

end
